theory Spec2Isabelle
  imports Complex_Main
begin

section \<open>Numbers\<close>

text \<open>
  The components compute with JavaScript numbers. They are modelled as real numbers:
  finite values with exact arithmetic. \<open>Math.max\<close> and \<open>Math.min\<close> are the
  maximum and minimum of two numbers.
\<close>

definition Math_max :: "real \<Rightarrow> real \<Rightarrow> real" where
  "Math_max a b = max a b"

definition Math_min :: "real \<Rightarrow> real \<Rightarrow> real" where
  "Math_min a b = min a b"

definition Math_PI :: real where
  "Math_PI = pi"

text \<open>
  A prop of type \<open>number | null\<close> is tested for truth in the source (\<open>width || 0\<close>,
  \<open>if (width)\<close>, \<open>!width\<close>): \<open>null\<close> and \<open>0\<close> are falsy.
  \<open>truthy_number w\<close> is the number when it is truthy.
\<close>

definition truthy_number :: "real option \<Rightarrow> real option" where
  "truthy_number w = (case w of None \<Rightarrow> None | Some x \<Rightarrow> if x = 0 then None else Some x)"

text \<open>
  The clamping expression both components apply to the \<open>progress\<close> prop:
  \<open>Math.max(0, Math.min(1, progress))\<close>.
\<close>

definition clampedProgress :: "real \<Rightarrow> real" where
  "clampedProgress progress = Math_max 0 (Math_min 1 progress)"

text \<open>
  The specification's \<open>clamp(p, lo, hi)\<close>, written from its words: a value below the
  range becomes the lower bound, a value above it the upper bound, a value inside is kept.
\<close>

definition spec_clamp :: "real \<Rightarrow> real \<Rightarrow> real \<Rightarrow> real" where
  "spec_clamp p lo hi = (if p < lo then lo else if hi < p then hi else p)"

section \<open>The animation primitives\<close>

text \<open>
  The components drive their geometry from shared values of the animation library
  (react-native-reanimated), which is not part of the repository.
  What the components hand to the library is data: \<open>withTiming(toValue, config)\<close>
  describes a timed transition to \<open>toValue\<close>, \<open>withRepeat(animation, numberOfReps,
  reverse)\<close> a repetition of it. Both are modelled as the descriptors the source builds.
\<close>

datatype easing = Easing_linear | Easing_ease | Easing_inOut easing

record timing_config =
  duration :: real
  easing :: "easing option"

record timing =
  toValue :: real
  config :: timing_config

datatype animation = Once timing | Repeated timing int bool

definition withTiming :: "real \<Rightarrow> timing_config \<Rightarrow> timing" where
  "withTiming v c = \<lparr>toValue = v, config = c\<rparr>"

definition withRepeat :: "timing \<Rightarrow> int \<Rightarrow> bool \<Rightarrow> animation" where
  "withRepeat a numberOfReps reverse = Repeated a numberOfReps reverse"

text \<open>
  A shared value holds a number and, while a transition runs on it, the transition's
  descriptor and the time in milliseconds since the transition started. \<open>held\<close> is the
  number last written: the value the running transition started from.
\<close>

record shared_value =
  held :: real
  running :: "animation option"
  runtime :: real

definition useSharedValue :: "real \<Rightarrow> shared_value" where
  "useSharedValue v = \<lparr>held = v, running = None, runtime = 0\<rparr>"

text \<open>
  The library's contract for a timed transition: once the duration has elapsed the value
  is exactly the target; before the first frame it is the start value; in between it is
  the start value plus the eased fraction of the distance. The easing curves themselves
  belong to the platform and are a parameter \<open>curve\<close> of the model; a transition
  without an easing uses the platform's default (\<open>curve None\<close>).
\<close>

definition timing_at :: "(easing option \<Rightarrow> real \<Rightarrow> real) \<Rightarrow> real \<Rightarrow> timing \<Rightarrow> real \<Rightarrow> real" where
  "timing_at curve start a t =
     (if duration (config a) \<le> t then toValue a
      else if t \<le> 0 then start
      else start + (toValue a - start) * curve (easing (config a)) (t / duration (config a)))"

text \<open>
  The contract for a repetition: the timed transition runs again and again, each run
  lasting its duration. With \<open>reverse\<close> every second run goes back from the target to
  the start value; without it every run starts over from the start value, the value at
  the very end of a run being the target. A positive \<open>numberOfReps\<close> ends the
  repetition after that many runs; zero or a negative number repeats without end. The
  library starts the next run on the frame that finds the run over; \<open>repeat_at\<close>
  takes that frame to fall on the multiple of the duration. The run count \<open>k\<close> and
  the time \<open>r\<close> into the current run are meaningful for a positive duration only.
\<close>

definition repeat_at :: "(easing option \<Rightarrow> real \<Rightarrow> real) \<Rightarrow> real \<Rightarrow> timing \<Rightarrow> int \<Rightarrow> bool \<Rightarrow> real \<Rightarrow> real" where
  "repeat_at curve start a numberOfReps reverse t =
     (let d = duration (config a);
          k = \<lfloor>t / d\<rfloor>;
          r = t - of_int k * d
      in if 0 < numberOfReps \<and> numberOfReps \<le> k
         then (if reverse \<and> even numberOfReps then start else toValue a)
         else if reverse \<and> odd k then timing_at curve (toValue a) (a\<lparr>toValue := start\<rparr>) r
         else if \<not> reverse \<and> 0 < k \<and> r = 0 then toValue a
         else timing_at curve start a r)"

definition read_value :: "(easing option \<Rightarrow> real \<Rightarrow> real) \<Rightarrow> shared_value \<Rightarrow> real" where
  "read_value curve sv =
     (case running sv of
        None \<Rightarrow> held sv
      | Some (Once a) \<Rightarrow> timing_at curve (held sv) a (runtime sv)
      | Some (Repeated a n reverse) \<Rightarrow> repeat_at curve (held sv) a n reverse (runtime sv))"

text \<open>
  Assigning a number to \<open>.value\<close> stops a running transition and stores the number;
  assigning a descriptor starts the transition from the present value;
  \<open>cancelAnimation\<close> stops the transition and keeps the present value. The passing
  of \<open>dt\<close> milliseconds advances the running transition.
\<close>

definition set_value :: "real \<Rightarrow> shared_value \<Rightarrow> shared_value" where
  "set_value v sv = \<lparr>held = v, running = None, runtime = 0\<rparr>"

definition set_animation :: "(easing option \<Rightarrow> real \<Rightarrow> real) \<Rightarrow> animation \<Rightarrow> shared_value \<Rightarrow> shared_value" where
  "set_animation curve a sv = \<lparr>held = read_value curve sv, running = Some a, runtime = 0\<rparr>"

definition cancelAnimation :: "(easing option \<Rightarrow> real \<Rightarrow> real) \<Rightarrow> shared_value \<Rightarrow> shared_value" where
  "cancelAnimation curve sv = \<lparr>held = read_value curve sv, running = None, runtime = 0\<rparr>"

definition advance :: "real \<Rightarrow> shared_value \<Rightarrow> shared_value" where
  "advance dt sv = sv\<lparr>runtime := runtime sv + dt\<rparr>"

text \<open>
  \<open>interpolate(x, [x0, x1], [y0, y1])\<close> with the library's default extrapolation
  (the line through the two points is extended).
\<close>

definition interpolate :: "real \<Rightarrow> real \<times> real \<Rightarrow> real \<times> real \<Rightarrow> real" where
  "interpolate x inputRange outputRange =
     (let x0 = fst inputRange; x1 = snd inputRange;
          y0 = fst outputRange; y1 = snd outputRange
      in if x1 - x0 = 0 then y0 else y0 + (x - x0) / (x1 - x0) * (y1 - y0))"

section \<open>The props\<close>

text \<open>
  The props after the defaults of the parameter list have been applied. The props that
  \<open>AnimatedProgressBarProps\<close> and \<open>AnimatedProgressCircleProps\<close> have in common
  are one record, which each component's props extend.
\<close>

record progress_props =
  progress :: real
  color :: string
  unfilledColor :: string
  animated :: bool
  animationDuration :: real
  indeterminate :: bool

record bar_props = progress_props +
  width :: "real option"
  height :: real
  borderRadius :: real
  borderWidth :: real
  borderColor :: "string option"
  indeterminateDuration :: real

datatype direction = clockwise | counter_clockwise

record circle_props = progress_props +
  size :: real
  thickness :: real
  fill :: string
  direction :: direction
  spinDuration :: real

definition bar_defaults :: bar_props where
  "bar_defaults =
     \<lparr>progress = 0, color = ''#3498db'', unfilledColor = ''#ecf0f1'', animated = True,
      animationDuration = 300, indeterminate = False,
      width = None, height = 4, borderRadius = 0, borderWidth = 0, borderColor = None,
      indeterminateDuration = 1000\<rparr>"

text \<open>\<open>size\<close> is required, every other prop of the circle has a default.\<close>

definition circle_defaults :: "real \<Rightarrow> circle_props" where
  "circle_defaults sz =
     \<lparr>progress = 0, color = ''#3498db'', unfilledColor = ''#ecf0f1'', animated = True,
      animationDuration = 300, indeterminate = False,
      size = sz, thickness = 4, fill = ''transparent'', direction = clockwise,
      spinDuration = 1000\<rparr>"

section \<open>The progress effect\<close>

text \<open>
  Both components own a shared value \<open>progressValue\<close>, created with the clamped
  progress, and update it in the same effect, which runs after the first render and after
  every render in which one of \<open>progress\<close>, \<open>animated\<close>, \<open>animationDuration\<close>
  or \<open>indeterminate\<close> has changed.
\<close>

definition progress_effect ::
  "(easing option \<Rightarrow> real \<Rightarrow> real) \<Rightarrow> 'a progress_props_scheme \<Rightarrow> shared_value \<Rightarrow> shared_value" where
  "progress_effect curve p progressValue =
     (let clamped = clampedProgress (progress p)
      in if animated p \<and> \<not> indeterminate p
         then set_animation curve
                (Once (withTiming clamped \<lparr>duration = animationDuration p, easing = None\<rparr>))
                progressValue
         else set_value clamped progressValue)"

definition progress_deps :: "'a progress_props_scheme \<Rightarrow> real \<times> bool \<times> real \<times> bool" where
  "progress_deps p = (progress p, animated p, animationDuration p, indeterminate p)"

section \<open>AnimatedProgressBar\<close>

record bar_state =
  bar_props :: bar_props
  progressValue :: shared_value
  indeterminateValue :: shared_value
  containerWidth :: shared_value

definition bar_indeterminate_effect ::
  "(easing option \<Rightarrow> real \<Rightarrow> real) \<Rightarrow> bar_props \<Rightarrow> shared_value \<Rightarrow> shared_value" where
  "bar_indeterminate_effect curve p iv =
     (if indeterminate p
      then set_animation curve
             (withRepeat
                (withTiming 1 \<lparr>duration = indeterminateDuration p,
                               easing = Some (Easing_inOut Easing_ease)\<rparr>)
                (- 1) True)
             iv
      else set_value 0 (cancelAnimation curve iv))"

definition bar_indeterminate_cleanup ::
  "(easing option \<Rightarrow> real \<Rightarrow> real) \<Rightarrow> shared_value \<Rightarrow> shared_value" where
  "bar_indeterminate_cleanup curve iv = cancelAnimation curve iv"

definition bar_indeterminate_deps :: "bar_props \<Rightarrow> bool \<times> real" where
  "bar_indeterminate_deps p = (indeterminate p, indeterminateDuration p)"

definition handleLayout :: "bar_props \<Rightarrow> real \<Rightarrow> shared_value \<Rightarrow> shared_value" where
  "handleLayout p layout_width cw =
     (case truthy_number (width p) of
        None \<Rightarrow> set_value layout_width cw
      | Some w \<Rightarrow> cw)"

definition width_effect :: "bar_props \<Rightarrow> shared_value \<Rightarrow> shared_value" where
  "width_effect p cw =
     (case truthy_number (width p) of
        Some w \<Rightarrow> set_value w cw
      | None \<Rightarrow> cw)"

text \<open>
  The first render creates the shared values; then the three effects run in the order
  of the source.
\<close>

definition bar_mount :: "(easing option \<Rightarrow> real \<Rightarrow> real) \<Rightarrow> bar_props \<Rightarrow> bar_state" where
  "bar_mount curve p =
     \<lparr>bar_props = p,
      progressValue =
        progress_effect curve p (useSharedValue (clampedProgress (progress p))),
      indeterminateValue = bar_indeterminate_effect curve p (useSharedValue 0),
      containerWidth =
        width_effect p
          (useSharedValue (case truthy_number (width p) of Some w \<Rightarrow> w | None \<Rightarrow> 0))\<rparr>"

text \<open>
  A later render with props \<open>p'\<close>: the cleanup of every effect whose dependencies
  have changed runs first, then those effects run again, in order.
\<close>

definition bar_rerender :: "(easing option \<Rightarrow> real \<Rightarrow> real) \<Rightarrow> bar_props \<Rightarrow> bar_state \<Rightarrow> bar_state" where
  "bar_rerender curve p' st =
     (let p = bar_props st
      in \<lparr>bar_props = p',
          progressValue =
            (if progress_deps p' \<noteq> progress_deps p
             then progress_effect curve p' (progressValue st)
             else progressValue st),
          indeterminateValue =
            (if bar_indeterminate_deps p' \<noteq> bar_indeterminate_deps p
             then bar_indeterminate_effect curve p'
                    (bar_indeterminate_cleanup curve (indeterminateValue st))
             else indeterminateValue st),
          containerWidth =
            (if width p' \<noteq> width p
             then width_effect p' (containerWidth st)
             else containerWidth st)\<rparr>)"

definition bar_unmount :: "(easing option \<Rightarrow> real \<Rightarrow> real) \<Rightarrow> bar_state \<Rightarrow> bar_state" where
  "bar_unmount curve st =
     st\<lparr>indeterminateValue := bar_indeterminate_cleanup curve (indeterminateValue st)\<rparr>"

text \<open>
  What happens to a mounted bar: it is rendered again with new props, its container is
  laid out with a measured width, or time passes.
\<close>

datatype bar_event = Rerender bar_props | Layout real | Elapse real

fun bar_step :: "(easing option \<Rightarrow> real \<Rightarrow> real) \<Rightarrow> bar_state \<Rightarrow> bar_event \<Rightarrow> bar_state" where
  "bar_step curve st (Rerender p') = bar_rerender curve p' st"
| "bar_step curve st (Layout w) =
     st\<lparr>containerWidth := handleLayout (bar_props st) w (containerWidth st)\<rparr>"
| "bar_step curve st (Elapse dt) =
     st\<lparr>progressValue := advance dt (progressValue st),
        indeterminateValue := advance dt (indeterminateValue st),
        containerWidth := advance dt (containerWidth st)\<rparr>"

fun bar_run :: "(easing option \<Rightarrow> real \<Rightarrow> real) \<Rightarrow> bar_state \<Rightarrow> bar_event list \<Rightarrow> bar_state" where
  "bar_run curve st [] = st"
| "bar_run curve st (e # es) = bar_run curve (bar_step curve st e) es"

text \<open>The animated style of the filled segment, and the two static styles.\<close>

record animated_style =
  style_width :: real
  translateX :: "real option"

definition determinateStyle :: "(easing option \<Rightarrow> real \<Rightarrow> real) \<Rightarrow> bar_state \<Rightarrow> animated_style" where
  "determinateStyle curve st =
     (let barWidth = read_value curve (containerWidth st) * read_value curve (progressValue st)
      in \<lparr>style_width = barWidth, translateX = None\<rparr>)"

definition indeterminateStyle :: "(easing option \<Rightarrow> real \<Rightarrow> real) \<Rightarrow> bar_state \<Rightarrow> animated_style" where
  "indeterminateStyle curve st =
     (let barWidth = read_value curve (containerWidth st) * 0.3;
          maxTranslate = read_value curve (containerWidth st) - barWidth;
          tx = interpolate (read_value curve (indeterminateValue st)) (0, 1) (0, maxTranslate)
      in \<lparr>style_width = barWidth, translateX = Some tx\<rparr>)"

definition barStyle :: "(easing option \<Rightarrow> real \<Rightarrow> real) \<Rightarrow> bar_state \<Rightarrow> animated_style" where
  "barStyle curve st =
     (if indeterminate (bar_props st) then indeterminateStyle curve st
      else determinateStyle curve st)"

datatype dimension = Px real | Percent real

record container_style =
  cs_height :: real
  cs_width :: dimension
  cs_backgroundColor :: string
  cs_borderRadius :: real
  cs_borderWidth :: real
  cs_borderColor :: string

definition containerStyle :: "bar_props \<Rightarrow> container_style" where
  "containerStyle p =
     \<lparr>cs_height = height p,
      cs_width = (case truthy_number (width p) of Some w \<Rightarrow> Px w | None \<Rightarrow> Percent 100),
      cs_backgroundColor = unfilledColor p,
      cs_borderRadius = borderRadius p,
      cs_borderWidth = borderWidth p,
      cs_borderColor = (case borderColor p of Some c \<Rightarrow> c | None \<Rightarrow> unfilledColor p)\<rparr>"

record progress_bar_style =
  pbs_height :: dimension
  pbs_backgroundColor :: string
  pbs_borderRadius :: real

definition progressBarStyle :: "bar_props \<Rightarrow> progress_bar_style" where
  "progressBarStyle p =
     \<lparr>pbs_height = Percent 100,
      pbs_backgroundColor = color p,
      pbs_borderRadius = Math_max 0 (borderRadius p - borderWidth p)\<rparr>"

section \<open>AnimatedProgressCircle\<close>

definition radius :: "circle_props \<Rightarrow> real" where
  "radius p = (size p - thickness p) / 2"

definition circumference :: "circle_props \<Rightarrow> real" where
  "circumference p = 2 * Math_PI * radius p"

definition center :: "circle_props \<Rightarrow> real" where
  "center p = size p / 2"

definition isCounterClockwise :: "circle_props \<Rightarrow> bool" where
  "isCounterClockwise p = (direction p = counter_clockwise)"

text \<open>
  The circle's \<open>progressValue\<close> is the field \<open>circleProgressValue\<close>, the bar's state
  having taken the name.
\<close>

record circle_state =
  circle_props :: circle_props
  circleProgressValue :: shared_value
  spinRotation :: shared_value

definition spin_effect ::
  "(easing option \<Rightarrow> real \<Rightarrow> real) \<Rightarrow> circle_props \<Rightarrow> shared_value \<Rightarrow> shared_value" where
  "spin_effect curve p sr =
     (if indeterminate p
      then set_animation curve
             (withRepeat
                (withTiming 360 \<lparr>duration = spinDuration p, easing = Some Easing_linear\<rparr>)
                (- 1) False)
             sr
      else set_value 0 (cancelAnimation curve sr))"

definition spin_cleanup ::
  "(easing option \<Rightarrow> real \<Rightarrow> real) \<Rightarrow> shared_value \<Rightarrow> shared_value" where
  "spin_cleanup curve sr = cancelAnimation curve sr"

definition spin_deps :: "circle_props \<Rightarrow> bool \<times> real" where
  "spin_deps p = (indeterminate p, spinDuration p)"

definition circle_mount :: "(easing option \<Rightarrow> real \<Rightarrow> real) \<Rightarrow> circle_props \<Rightarrow> circle_state" where
  "circle_mount curve p =
     \<lparr>circle_props = p,
      circleProgressValue =
        progress_effect curve p (useSharedValue (clampedProgress (progress p))),
      spinRotation = spin_effect curve p (useSharedValue 0)\<rparr>"

definition circle_rerender ::
  "(easing option \<Rightarrow> real \<Rightarrow> real) \<Rightarrow> circle_props \<Rightarrow> circle_state \<Rightarrow> circle_state" where
  "circle_rerender curve p' st =
     (let p = circle_props st
      in \<lparr>circle_props = p',
          circleProgressValue =
            (if progress_deps p' \<noteq> progress_deps p
             then progress_effect curve p' (circleProgressValue st)
             else circleProgressValue st),
          spinRotation =
            (if spin_deps p' \<noteq> spin_deps p
             then spin_effect curve p' (spin_cleanup curve (spinRotation st))
             else spinRotation st)\<rparr>)"

definition circle_unmount :: "(easing option \<Rightarrow> real \<Rightarrow> real) \<Rightarrow> circle_state \<Rightarrow> circle_state" where
  "circle_unmount curve st =
     st\<lparr>spinRotation := spin_cleanup curve (spinRotation st)\<rparr>"

datatype circle_event = CRerender circle_props | CElapse real

fun circle_step ::
  "(easing option \<Rightarrow> real \<Rightarrow> real) \<Rightarrow> circle_state \<Rightarrow> circle_event \<Rightarrow> circle_state" where
  "circle_step curve st (CRerender p') = circle_rerender curve p' st"
| "circle_step curve st (CElapse dt) =
     st\<lparr>circleProgressValue := advance dt (circleProgressValue st),
        spinRotation := advance dt (spinRotation st)\<rparr>"

fun circle_run ::
  "(easing option \<Rightarrow> real \<Rightarrow> real) \<Rightarrow> circle_state \<Rightarrow> circle_event list \<Rightarrow> circle_state" where
  "circle_run curve st [] = st"
| "circle_run curve st (e # es) = circle_run curve (circle_step curve st e) es"

text \<open>
  The animated props of the arc. In determinate mode the dash array is the static
  attribute \<open>circumference, circumference\<close> and only the offset is animated; in
  indeterminate mode the animated props supply both.
\<close>

record animated_props =
  strokeDasharray :: "real list option"
  strokeDashoffset :: real

definition determinateProps :: "(easing option \<Rightarrow> real \<Rightarrow> real) \<Rightarrow> circle_state \<Rightarrow> animated_props" where
  "determinateProps curve st =
     (let offset = circumference (circle_props st)
                     * (1 - read_value curve (circleProgressValue st))
      in \<lparr>strokeDasharray = None,
          strokeDashoffset =
            (if isCounterClockwise (circle_props st) then - offset else offset)\<rparr>)"

definition indeterminateProps :: "circle_state \<Rightarrow> animated_props" where
  "indeterminateProps st =
     (let arcLength = circumference (circle_props st) * 0.25;
          gapLength = circumference (circle_props st) * 0.75
      in \<lparr>strokeDasharray = Some [arcLength, gapLength], strokeDashoffset = 0\<rparr>)"

definition animatedProps :: "(easing option \<Rightarrow> real \<Rightarrow> real) \<Rightarrow> circle_state \<Rightarrow> animated_props" where
  "animatedProps curve st =
     (if indeterminate (circle_props st) then indeterminateProps st
      else determinateProps curve st)"

text \<open>
  The arc as it is drawn: the static attributes of the animated circle with the animated
  props laid over them, and the rotation of the spinner container, which exists in
  indeterminate mode only.
\<close>

record arc =
  arc_r :: real
  arc_strokeWidth :: real
  arc_dasharray :: "real list"
  arc_dashoffset :: real
  spinner_rotate :: "real option"

definition render_arc :: "(easing option \<Rightarrow> real \<Rightarrow> real) \<Rightarrow> circle_state \<Rightarrow> arc" where
  "render_arc curve st =
     (let p = circle_props st; a = animatedProps curve st
      in \<lparr>arc_r = radius p,
          arc_strokeWidth = thickness p,
          arc_dasharray =
            (case strokeDasharray a of
               Some d \<Rightarrow> d
             | None \<Rightarrow> if indeterminate p then [] else [circumference p, circumference p]),
          arc_dashoffset = strokeDashoffset a,
          spinner_rotate =
            (if indeterminate p then Some (read_value curve (spinRotation st)) else None)\<rparr>)"

section \<open>Invariants of a mounted component\<close>

text \<open>
  The progress effect has been applied for props \<open>p\<close>: an animated determinate
  component has the timed transition to the clamped progress on its progress value, any
  other component holds the clamped progress with no transition running.
\<close>

definition progress_applied :: "'a progress_props_scheme \<Rightarrow> shared_value \<Rightarrow> bool" where
  "progress_applied p sv =
     (if animated p \<and> \<not> indeterminate p
      then running sv =
             Some (Once (withTiming (clampedProgress (progress p))
                           \<lparr>duration = animationDuration p, easing = None\<rparr>))
      else running sv = None \<and> held sv = clampedProgress (progress p))"

text \<open>
  The container width has been resolved for props \<open>p\<close>: it never runs a
  transition, and it is the \<open>width\<close> prop when that is truthy.
\<close>

definition width_applied :: "bar_props \<Rightarrow> shared_value \<Rightarrow> bool" where
  "width_applied p cw =
     (running cw = None \<and>
      (case truthy_number (width p) of Some w \<Rightarrow> held cw = w | None \<Rightarrow> True))"

definition bar_inv :: "bar_state \<Rightarrow> bool" where
  "bar_inv st =
     (progress_applied (bar_props st) (progressValue st) \<and>
      0 \<le> runtime (progressValue st) \<and>
      width_applied (bar_props st) (containerWidth st))"

definition circle_inv :: "circle_state \<Rightarrow> bool" where
  "circle_inv st =
     (progress_applied (circle_props st) (circleProgressValue st) \<and>
      0 \<le> runtime (circleProgressValue st))"

text \<open>Time does not run backwards: an \<open>Elapse\<close> carries a non-negative time.\<close>

fun bar_time_ok :: "bar_event \<Rightarrow> bool" where
  "bar_time_ok (Elapse dt) = (0 \<le> dt)"
| "bar_time_ok (Rerender p) = True"
| "bar_time_ok (Layout w) = True"

fun circle_time_ok :: "circle_event \<Rightarrow> bool" where
  "circle_time_ok (CElapse dt) = (0 \<le> dt)"
| "circle_time_ok (CRerender p) = True"

text \<open>
  A component with props \<open>p\<close> is at rest \<open>t\<close> milliseconds after its last render
  when the timed transition of its progress value, if it runs one, has had its duration.
\<close>

definition at_rest :: "'a progress_props_scheme \<Rightarrow> real \<Rightarrow> bool" where
  "at_rest p t = (0 \<le> t \<and> (animated p \<and> \<not> indeterminate p \<longrightarrow> animationDuration p \<le> t))"

text \<open>
  The offset of the indeterminate bar's segment lies between \<open>0\<close> and the container
  width less the segment width.
\<close>

definition segment_offset_in_range :: "(easing option \<Rightarrow> real \<Rightarrow> real) \<Rightarrow> bar_state \<Rightarrow> bool" where
  "segment_offset_in_range curve st =
     (let w = read_value curve (containerWidth st)
      in case translateX (barStyle curve st) of
           None \<Rightarrow> False
         | Some x \<Rightarrow> 0 \<le> x \<and> x \<le> w - 0.3 * w)"

text \<open>An easing curve for concrete runs: every easing is the identity.\<close>

definition linear_curve :: "easing option \<Rightarrow> real \<Rightarrow> real" where
  "linear_curve e x = x"

section \<open>Properties of the primitives\<close>

lemma clampedProgress_eq_spec_clamp: "clampedProgress p = spec_clamp p 0 1"
  by (simp add: clampedProgress_def spec_clamp_def Math_max_def Math_min_def)

lemma clampedProgress_range: "0 \<le> clampedProgress p \<and> clampedProgress p \<le> 1"
  by (simp add: clampedProgress_def Math_max_def Math_min_def)

lemma read_value_set_value [simp]: "read_value curve (set_value v sv) = v"
  by (simp add: read_value_def set_value_def)

lemma read_value_useSharedValue [simp]: "read_value curve (useSharedValue v) = v"
  by (simp add: read_value_def useSharedValue_def)

lemma read_value_idle: "running sv = None \<Longrightarrow> read_value curve sv = held sv"
  by (simp add: read_value_def)

lemma running_advance [simp]: "running (advance dt sv) = running sv"
  by (simp add: advance_def)

lemma held_advance [simp]: "held (advance dt sv) = held sv"
  by (simp add: advance_def)

lemma runtime_advance [simp]: "runtime (advance dt sv) = runtime sv + dt"
  by (simp add: advance_def)

lemma timing_at_finished: "duration (config a) \<le> t \<Longrightarrow> timing_at curve start a t = toValue a"
  by (simp add: timing_at_def)

lemma timing_at_stationary: "toValue a = start \<Longrightarrow> timing_at curve start a t = start"
  by (simp add: timing_at_def)

section \<open>The progress value settles at the clamped progress\<close>

lemma progress_effect_applied: "progress_applied p (progress_effect curve p sv)"
  by (simp add: progress_applied_def progress_effect_def set_animation_def set_value_def Let_def)

lemma progress_effect_runtime: "runtime (progress_effect curve p sv) = 0"
  by (simp add: progress_effect_def set_animation_def set_value_def Let_def)

lemma progress_applied_cong:
  "progress_deps p' = progress_deps p \<Longrightarrow> progress_applied p sv \<Longrightarrow> progress_applied p' sv"
  by (simp add: progress_deps_def progress_applied_def)

lemma progress_applied_advance: "progress_applied p sv \<Longrightarrow> progress_applied p (advance dt sv)"
  by (simp add: progress_applied_def)

lemma progress_applied_at_rest:
  assumes "progress_applied p sv" and "0 \<le> runtime sv" and "0 \<le> t"
    and "animationDuration p \<le> t"
  shows "read_value curve (advance t sv) = clampedProgress (progress p)"
proof (cases "animated p \<and> \<not> indeterminate p")
  case True
  with assms(1) have r: "running sv =
      Some (Once (withTiming (clampedProgress (progress p))
                    \<lparr>duration = animationDuration p, easing = None\<rparr>))"
    by (simp add: progress_applied_def)
  have "animationDuration p \<le> runtime sv + t"
    using assms(2,4) by linarith
  then show ?thesis
    using r by (simp add: read_value_def withTiming_def timing_at_finished)
next
  case False
  with assms(1) have "running sv = None" "held sv = clampedProgress (progress p)"
    by (auto simp: progress_applied_def)
  then show ?thesis
    by (simp add: read_value_def)
qed

lemma progress_value_after_mount:
  "read_value curve
     (advance t (progress_effect curve p (useSharedValue (clampedProgress (progress p)))))
   = clampedProgress (progress p)"
  by (simp add: progress_effect_def Let_def read_value_def set_animation_def set_value_def
      useSharedValue_def withTiming_def timing_at_stationary)

lemma progress_applied_settled:
  assumes "progress_applied p sv" and "0 \<le> runtime sv" and "at_rest p t"
  shows "read_value curve (advance t sv) = clampedProgress (progress p)"
proof (cases "animated p \<and> \<not> indeterminate p")
  case True
  with assms(3) have "0 \<le> t" "animationDuration p \<le> t"
    by (simp_all add: at_rest_def)
  with assms(1,2) show ?thesis
    by (rule progress_applied_at_rest)
next
  case False
  with assms(1) have "running sv = None" "held sv = clampedProgress (progress p)"
    by (auto simp: progress_applied_def)
  then show ?thesis
    by (simp add: read_value_def)
qed

section \<open>The invariants hold in every state a mounted component reaches\<close>

lemma width_effect_applied:
  "running cw = None \<Longrightarrow> width_applied p (width_effect p cw)"
  by (simp add: width_applied_def width_effect_def set_value_def split: option.split)

lemma handleLayout_applied:
  "width_applied p cw \<Longrightarrow> width_applied p (handleLayout p w cw)"
  by (simp add: width_applied_def handleLayout_def set_value_def split: option.splits)

lemma bar_mount_inv: "bar_inv (bar_mount curve p)"
  by (simp add: bar_inv_def bar_mount_def progress_effect_applied progress_effect_runtime
      width_effect_applied useSharedValue_def)

lemma bar_rerender_inv:
  assumes "bar_inv st"
  shows "bar_inv (bar_rerender curve p' st)"
proof -
  have "progress_applied p' (progressValue (bar_rerender curve p' st))"
    using assms
    by (auto simp: bar_rerender_def Let_def bar_inv_def progress_effect_applied
        intro: progress_applied_cong)
  moreover have "0 \<le> runtime (progressValue (bar_rerender curve p' st))"
    using assms by (simp add: bar_rerender_def Let_def bar_inv_def progress_effect_runtime)
  moreover have "width_applied p' (containerWidth (bar_rerender curve p' st))"
  proof (cases "width p' = width (bar_props st)")
    case True
    then show ?thesis
      using assms by (simp add: bar_rerender_def Let_def bar_inv_def width_applied_def)
  next
    case False
    moreover have "running (containerWidth st) = None"
      using assms by (simp add: bar_inv_def width_applied_def)
    ultimately show ?thesis
      by (simp add: bar_rerender_def Let_def width_effect_applied)
  qed
  ultimately show ?thesis
    by (simp add: bar_inv_def bar_rerender_def Let_def)
qed

lemma bar_step_inv:
  assumes "bar_inv st" and "bar_time_ok e"
  shows "bar_inv (bar_step curve st e)"
proof (cases e)
  case (Rerender p')
  with assms(1) show ?thesis
    by (simp add: bar_rerender_inv)
next
  case (Layout w)
  with assms(1) show ?thesis
    by (simp add: bar_inv_def handleLayout_applied)
next
  case (Elapse dt)
  with assms show ?thesis
    by (simp add: bar_inv_def progress_applied_advance width_applied_def split: option.splits)
qed

lemma bar_run_inv:
  "bar_inv st \<Longrightarrow> \<forall>e\<in>set es. bar_time_ok e \<Longrightarrow> bar_inv (bar_run curve st es)"
  by (induction es arbitrary: st) (simp_all add: bar_step_inv)

lemma circle_mount_inv: "circle_inv (circle_mount curve p)"
  by (simp add: circle_inv_def circle_mount_def progress_effect_applied progress_effect_runtime)

lemma circle_rerender_inv:
  assumes "circle_inv st"
  shows "circle_inv (circle_rerender curve p' st)"
proof -
  have "progress_applied p' (circleProgressValue (circle_rerender curve p' st))"
    using assms
    by (auto simp: circle_rerender_def Let_def circle_inv_def progress_effect_applied
        intro: progress_applied_cong)
  moreover have "0 \<le> runtime (circleProgressValue (circle_rerender curve p' st))"
    using assms by (simp add: circle_rerender_def Let_def circle_inv_def progress_effect_runtime)
  ultimately show ?thesis
    by (simp add: circle_inv_def circle_rerender_def Let_def)
qed

lemma circle_step_inv:
  assumes "circle_inv st" and "circle_time_ok e"
  shows "circle_inv (circle_step curve st e)"
proof (cases e)
  case (CRerender p')
  with assms(1) show ?thesis
    by (simp add: circle_rerender_inv)
next
  case (CElapse dt)
  with assms show ?thesis
    by (simp add: circle_inv_def progress_applied_advance)
qed

lemma circle_run_inv:
  "circle_inv st \<Longrightarrow> \<forall>e\<in>set es. circle_time_ok e \<Longrightarrow> circle_inv (circle_run curve st es)"
  by (induction es arbitrary: st) (simp_all add: circle_step_inv)

lemma bar_reachable_settled:
  assumes "\<forall>e\<in>set es. bar_time_ok e" and "st = bar_run curve (bar_mount curve p) es"
    and "at_rest (bar_props st) t"
  shows "read_value curve (advance t (progressValue st)) = clampedProgress (progress (bar_props st))"
proof -
  have "bar_inv st"
    using assms(1,2) by (simp add: bar_run_inv bar_mount_inv)
  then show ?thesis
    using assms(3) by (simp add: bar_inv_def progress_applied_settled)
qed

lemma circle_reachable_settled:
  assumes "\<forall>e\<in>set es. circle_time_ok e" and "st = circle_run curve (circle_mount curve p) es"
    and "at_rest (circle_props st) t"
  shows "read_value curve (advance t (circleProgressValue st))
         = clampedProgress (progress (circle_props st))"
proof -
  have "circle_inv st"
    using assms(1,2) by (simp add: circle_run_inv circle_mount_inv)
  then show ?thesis
    using assms(3) by (simp add: circle_inv_def progress_applied_settled)
qed

lemma circle_settled_after:
  assumes "\<forall>e\<in>set es. circle_time_ok e" and "st = circle_run curve (circle_mount curve p) es"
    and "at_rest (circle_props st) t"
  shows "read_value curve (circleProgressValue (circle_step curve st (CElapse t)))
         = spec_clamp (progress (circle_props st)) 0 1"
  using circle_reachable_settled [OF assms] by (simp add: clampedProgress_eq_spec_clamp)

lemma bar_settled_after:
  assumes "\<forall>e\<in>set es. bar_time_ok e" and "st = bar_run curve (bar_mount curve p) es"
    and "at_rest (bar_props st) t"
  shows "read_value curve (progressValue (bar_step curve st (Elapse t)))
         = spec_clamp (progress (bar_props st)) 0 1"
  using bar_reachable_settled [OF assms] by (simp add: clampedProgress_eq_spec_clamp)

lemma bar_width_idle:
  assumes "\<forall>e\<in>set es. bar_time_ok e" and "st = bar_run curve (bar_mount curve p) es"
  shows "running (containerWidth st) = None"
proof -
  have "bar_inv st"
    using assms by (simp add: bar_run_inv bar_mount_inv)
  then show ?thesis
    by (simp add: bar_inv_def width_applied_def)
qed


section \<open>The indeterminate bar\<close>

lemma indeterminateStyle_eq:
  "indeterminateStyle curve st =
     \<lparr>style_width = 0.3 * read_value curve (containerWidth st),
      translateX = Some (read_value curve (indeterminateValue st)
                         * (read_value curve (containerWidth st)
                            - 0.3 * read_value curve (containerWidth st)))\<rparr>"
  by (simp add: indeterminateStyle_def interpolate_def Let_def)

section \<open>The indeterminate effect of the bar\<close>


section \<open>Switching the mode\<close>

lemma progress_effect_settled:
  assumes "at_rest p t"
  shows "read_value curve (advance t (progress_effect curve p sv)) = clampedProgress (progress p)"
proof -
  have "progress_applied p (progress_effect curve p sv)"
    by (rule progress_effect_applied)
  moreover have "0 \<le> runtime (progress_effect curve p sv)"
    by (simp add: progress_effect_runtime)
  ultimately show ?thesis
    using assms by (rule progress_applied_settled)
qed

lemma progress_effect_indeterminate:
  assumes "indeterminate p"
  shows "progress_effect curve p sv = \<lparr>held = clampedProgress (progress p), running = None, runtime = 0\<rparr>"
  using assms by (simp add: progress_effect_def set_value_def Let_def)

lemma loop_effect_reset:
  "set_value 0 (cancelAnimation curve sv) = \<lparr>held = 0, running = None, runtime = 0\<rparr>"
  by (simp add: set_value_def)

lemma running_cancelAnimation [simp]: "running (cancelAnimation curve sv) = None"
  by (simp add: cancelAnimation_def)

section \<open>The container width\<close>

lemma bar_rerender_width_applied:
  assumes "width_applied (bar_props st) (containerWidth st)"
  shows "width_applied p' (containerWidth (bar_rerender curve p' st))"
proof (cases "width p' = width (bar_props st)")
  case True
  then show ?thesis
    using assms by (simp add: bar_rerender_def Let_def width_applied_def)
next
  case False
  moreover have "running (containerWidth st) = None"
    using assms by (simp add: width_applied_def)
  ultimately show ?thesis
    by (simp add: bar_rerender_def Let_def width_effect_applied)
qed

lemma bar_step_width_applied:
  assumes "width_applied (bar_props st) (containerWidth st)"
  shows "width_applied (bar_props (bar_step curve st e)) (containerWidth (bar_step curve st e))"
proof (cases e)
  case (Rerender p')
  have "bar_props (bar_rerender curve p' st) = p'"
    by (simp add: bar_rerender_def Let_def)
  with assms Rerender show ?thesis
    by (simp add: bar_rerender_width_applied)
next
  case (Layout w)
  with assms show ?thesis
    by (simp add: handleLayout_applied)
next
  case (Elapse dt)
  with assms show ?thesis
    by (simp add: width_applied_def split: option.splits)
qed

lemma bar_run_width_applied:
  "width_applied (bar_props st) (containerWidth st) \<Longrightarrow>
   width_applied (bar_props (bar_run curve st es)) (containerWidth (bar_run curve st es))"
  by (induction es arbitrary: st) (simp_all add: bar_step_width_applied)

lemma bar_mount_width_applied:
  "width_applied (bar_props (bar_mount curve p)) (containerWidth (bar_mount curve p))"
  by (simp add: bar_mount_def width_effect_applied useSharedValue_def)

section \<open>Bounds on \<open>\<pi>\<close>\<close>

lemma sin_poly_9:
  fixes x :: real
  shows "(\<Sum>m<9. sin_coeff m * x ^ m) = x - x^3 / 6 + x^5 / 120 - x^7 / 5040"
proof -
  have "{..<9::nat} = {0, 1, 2, 3, 4, 5, 6, 7, 8}"
    by auto
  then show ?thesis
    by (simp add: sin_coeff_def fact_numeral)
qed

lemma sin_near_poly_9:
  fixes x :: real
  shows "\<bar>sin x - (x - x^3 / 6 + x^5 / 120 - x^7 / 5040)\<bar> \<le> \<bar>x\<bar>^9 / 362880"
proof -
  have "\<bar>sin x - (\<Sum>m<9. sin_coeff m * x ^ m)\<bar> \<le> inverse (fact 9) * \<bar>x\<bar> ^ 9"
    by (rule Maclaurin_sin_bound)
  moreover have "(fact 9 :: real) = 362880"
    by (simp add: fact_numeral)
  ultimately have "\<bar>sin x - (\<Sum>m<9. sin_coeff m * x ^ m)\<bar> \<le> inverse 362880 * \<bar>x\<bar> ^ 9"
    by (simp only:)
  then show ?thesis
    by (simp only: sin_poly_9 inverse_eq_divide times_divide_eq_left mult_1)
qed

lemma pi_lower_bound: "3.141582 < pi"
proof -
  define a :: real where "a = 0.523597"
  have "a - a^3 / 6 + a^5 / 120 - a^7 / 5040 + \<bar>a\<bar>^9 / 362880 < 1 / 2"
    unfolding a_def by (simp add: power_divide)
  then have "sin a < 1 / 2"
    using sin_near_poly_9 [of a] by linarith
  also have "\<dots> = sin (pi / 6)"
    by (simp add: sin_30)
  finally have "sin a < sin (pi / 6)" .
  moreover have "- (pi / 2) \<le> a" "a \<le> pi / 2"
    using pi_ge_two by (simp_all add: a_def)
  moreover have "pi / 6 \<le> pi / 2" "- (pi / 2) \<le> pi / 6"
    using pi_ge_two by simp_all
  ultimately have "a < pi / 6"
    by (simp add: sin_mono_less_eq)
  then show ?thesis
    by (simp add: a_def)
qed

lemma pi_upper_bound: "pi < 3.1416"
proof -
  define b :: real where "b = 0.5236"
  have "1 / 2 < b - b^3 / 6 + b^5 / 120 - b^7 / 5040 - \<bar>b\<bar>^9 / 362880"
    unfolding b_def by (simp add: power_divide)
  then have "1 / 2 < sin b"
    using sin_near_poly_9 [of b] by linarith
  then have "sin (pi / 6) < sin b"
    by (simp add: sin_30)
  moreover have "- (pi / 2) \<le> b" "b \<le> pi / 2"
    using pi_ge_two by (simp_all add: b_def)
  moreover have "pi / 6 \<le> pi / 2" "- (pi / 2) \<le> pi / 6"
    using pi_ge_two by simp_all
  ultimately have "pi / 6 < b"
    by (simp add: sin_mono_less_eq)
  then show ?thesis
    by (simp add: b_def)
qed

section \<open>The claims\<close>

text \<open>
  Claim C1. For every progress input \<open>p\<close> to AnimatedProgressCircle and
  AnimatedProgressBar, also outside \<open>[0, 1]\<close>, the fraction used for rendering is
  \<open>clamp(p, 0, 1)\<close>. The fraction is the value read from the progress value. Right
  after mounting it is the clamped progress at every time \<open>t\<close>; in every state the
  component reaches from there (renders with new props, layouts, time passing) it is the
  clamped value of the latest \<open>progress\<close> as soon as the component is at rest. The
  clamping expression of the source is the specification's clamp and its value lies in
  \<open>[0, 1]\<close>. No input is rejected: every prop value yields a state.
\<close>

theorem progress_fraction_is_clamped:
  assumes "\<forall>e\<in>set bes. bar_time_ok e"
    and "\<forall>e\<in>set ces. circle_time_ok e"
    and "bst = bar_run curve (bar_mount curve bp) bes"
    and "cst = circle_run curve (circle_mount curve cp) ces"
  shows "read_value curve (advance t (progressValue (bar_mount curve bp)))
           = spec_clamp (progress bp) 0 1
       \<and> read_value curve (advance t (circleProgressValue (circle_mount curve cp)))
           = spec_clamp (progress cp) 0 1
       \<and> (at_rest (bar_props bst) t \<longrightarrow>
            read_value curve (advance t (progressValue bst))
              = spec_clamp (progress (bar_props bst)) 0 1)
       \<and> (at_rest (circle_props cst) t \<longrightarrow>
            read_value curve (advance t (circleProgressValue cst))
              = spec_clamp (progress (circle_props cst)) 0 1)
       \<and> clampedProgress q = spec_clamp q 0 1
       \<and> 0 \<le> clampedProgress q \<and> clampedProgress q \<le> 1"
proof -
  have "read_value curve (advance t (progressValue (bar_mount curve bp)))
          = clampedProgress (progress bp)"
    by (simp add: bar_mount_def progress_value_after_mount)
  moreover have "read_value curve (advance t (circleProgressValue (circle_mount curve cp)))
          = clampedProgress (progress cp)"
    by (simp add: circle_mount_def progress_value_after_mount)
  moreover have "at_rest (bar_props bst) t \<Longrightarrow>
      read_value curve (advance t (progressValue bst))
        = clampedProgress (progress (bar_props bst))"
    using assms(1,3) by (rule bar_reachable_settled)
  moreover have "at_rest (circle_props cst) t \<Longrightarrow>
      read_value curve (advance t (circleProgressValue cst))
        = clampedProgress (progress (circle_props cst))"
    using assms(2,4) by (rule circle_reachable_settled)
  ultimately show ?thesis
    using clampedProgress_range [of q] by (simp add: clampedProgress_eq_spec_clamp)
qed

theorem progress_fraction_is_clamped_witness:
  "read_value linear_curve
        (advance 300 (progressValue (bar_mount linear_curve (bar_defaults\<lparr>progress := 3 / 2\<rparr>)))) = 1
   \<and> read_value linear_curve
        (advance 300 (circleProgressValue (circle_mount linear_curve ((circle_defaults 100)\<lparr>progress := 2\<rparr>)))) = 1
   \<and> at_rest (bar_defaults\<lparr>progress := - 1\<rparr>) 300
   \<and> read_value linear_curve
        (advance 300 (progressValue
           (bar_run linear_curve (bar_mount linear_curve (bar_defaults\<lparr>progress := 3 / 2\<rparr>))
              [Rerender (bar_defaults\<lparr>progress := - 1\<rparr>), Elapse 300]))) = 0
   \<and> at_rest ((circle_defaults 100)\<lparr>progress := 1 / 2\<rparr>) 300
   \<and> read_value linear_curve
        (advance 300 (circleProgressValue
           (circle_run linear_curve (circle_mount linear_curve ((circle_defaults 100)\<lparr>progress := 2\<rparr>))
              [CRerender ((circle_defaults 100)\<lparr>progress := 1 / 2\<rparr>), CElapse 20]))) = 1 / 2"
proof -
  have b: "\<forall>e\<in>set [Rerender (bar_defaults\<lparr>progress := - 1\<rparr>), Elapse 300]. bar_time_ok e"
    by simp
  have c: "\<forall>e\<in>set [CRerender ((circle_defaults 100)\<lparr>progress := 1 / 2\<rparr>), CElapse 20]. circle_time_ok e"
    by simp
  have pb: "bar_props (bar_run linear_curve (bar_mount linear_curve (bar_defaults\<lparr>progress := 3 / 2\<rparr>))
              [Rerender (bar_defaults\<lparr>progress := - 1\<rparr>), Elapse 300]) = bar_defaults\<lparr>progress := - 1\<rparr>"
    by (simp add: bar_rerender_def Let_def)
  have pc: "circle_props (circle_run linear_curve (circle_mount linear_curve ((circle_defaults 100)\<lparr>progress := 2\<rparr>))
              [CRerender ((circle_defaults 100)\<lparr>progress := 1 / 2\<rparr>), CElapse 20]) = (circle_defaults 100)\<lparr>progress := 1 / 2\<rparr>"
    by (simp add: circle_rerender_def Let_def)
  have rb: "at_rest (bar_defaults\<lparr>progress := - 1\<rparr>) 300"
    by (simp add: at_rest_def bar_defaults_def)
  have rc: "at_rest ((circle_defaults 100)\<lparr>progress := 1 / 2\<rparr>) 300"
    by (simp add: at_rest_def circle_defaults_def)
  show ?thesis
    using progress_fraction_is_clamped [where curve = linear_curve
        and bp = "bar_defaults\<lparr>progress := 3 / 2\<rparr>"
        and cp = "(circle_defaults 100)\<lparr>progress := 2\<rparr>" and t = 300, OF b c refl refl]
      rb rc
    by (simp only: pb pc) (simp add: spec_clamp_def)
qed

text \<open>
  Claim C2. For every progress value and every direction, the dash offset of the
  determinate AnimatedProgressCircle is \<open>circumference \<times> (1 - clampedProgress)\<close> when
  the direction is clockwise and the negation of that when it is counter-clockwise. The
  offset is the one of the arc drawn in any state the component reaches, at rest.
\<close>

theorem determinate_circle_dash_offset:
  assumes "\<forall>e\<in>set es. circle_time_ok e"
    and "st = circle_run curve (circle_mount curve p) es"
    and "\<not> indeterminate (circle_props st)"
    and "at_rest (circle_props st) t"
  shows "arc_dashoffset (render_arc curve (circle_step curve st (CElapse t)))
         = (case direction (circle_props st) of
              clockwise \<Rightarrow>
                circumference (circle_props st) * (1 - spec_clamp (progress (circle_props st)) 0 1)
            | counter_clockwise \<Rightarrow>
                - (circumference (circle_props st) * (1 - spec_clamp (progress (circle_props st)) 0 1)))"
proof -
  have "read_value curve (circleProgressValue (circle_step curve st (CElapse t)))
        = spec_clamp (progress (circle_props st)) 0 1"
    using assms(1,2,4) by (rule circle_settled_after)
  then show ?thesis
    using assms(3)
    by (cases "direction (circle_props st)")
      (simp_all add: render_arc_def animatedProps_def determinateProps_def Let_def
        isCounterClockwise_def)
qed

theorem determinate_circle_dash_offset_witness:
  "\<not> indeterminate ((circle_defaults 100)\<lparr>progress := 1 / 4, direction := counter_clockwise, thickness := 8\<rparr>)
   \<and> at_rest ((circle_defaults 100)\<lparr>progress := 1 / 4, direction := counter_clockwise, thickness := 8\<rparr>) 300
   \<and> arc_dashoffset
        (render_arc linear_curve
           (circle_step linear_curve
              (circle_run linear_curve (circle_mount linear_curve (circle_defaults 100))
                 [CRerender ((circle_defaults 100)\<lparr>progress := 1 / 4, direction := counter_clockwise, thickness := 8\<rparr>), CElapse 50])
              (CElapse 300)))
       = - (2 * pi * 46 * (3 / 4))"
proof -
  let ?p = "(circle_defaults 100)\<lparr>progress := 1 / 4, direction := counter_clockwise, thickness := 8\<rparr>"
  let ?es = "[CRerender ?p, CElapse 50]"
  let ?st = "circle_run linear_curve (circle_mount linear_curve (circle_defaults 100)) ?es"
  have ok: "\<forall>e\<in>set ?es. circle_time_ok e"
    by simp
  have props: "circle_props ?st = ?p"
    by (simp add: circle_rerender_def Let_def)
  have det: "\<not> indeterminate (circle_props ?st)"
    by (simp only: props) (simp add: circle_defaults_def)
  have rest: "at_rest (circle_props ?st) 300"
    by (simp only: props) (simp add: at_rest_def circle_defaults_def)
  show ?thesis
    using determinate_circle_dash_offset [OF ok refl det rest] det rest
    by (simp only: props)
      (simp add: circle_defaults_def circumference_def radius_def Math_PI_def spec_clamp_def)
qed

text \<open>
  Claim C3. For every container width \<open>w\<close> (in particular every \<open>w > 0\<close>) and every
  progress value, the filled segment of the determinate AnimatedProgressBar is
  \<open>w \<times> clampedProgress\<close> wide at rest; with \<open>progress = 0.5\<close>, \<open>height = 4\<close>, no
  explicit width and a measured container width of 200 the filled width is 100.
\<close>

theorem determinate_bar_width:
  assumes "\<forall>e\<in>set es. bar_time_ok e"
    and "st = bar_run curve (bar_mount curve p) es"
    and "\<not> indeterminate (bar_props st)"
    and "at_rest (bar_props st) t"
    and "read_value curve (containerWidth st) = w"
  shows "style_width (barStyle curve (bar_step curve st (Elapse t)))
           = w * spec_clamp (progress (bar_props st)) 0 1
       \<and> style_width
           (barStyle curve
              (bar_run curve (bar_mount curve (bar_defaults\<lparr>progress := 1 / 2, height := 4\<rparr>))
                 [Layout 200, Elapse t])) = 100"
proof -
  have "read_value curve (progressValue (bar_step curve st (Elapse t)))
        = spec_clamp (progress (bar_props st)) 0 1"
    using assms(1,2,4) by (rule bar_settled_after)
  moreover have "running (containerWidth st) = None"
    using assms(1,2) by (rule bar_width_idle)
  then have "read_value curve (containerWidth (bar_step curve st (Elapse t))) = w"
    using assms(5) by (simp add: read_value_def)
  ultimately have "style_width (barStyle curve (bar_step curve st (Elapse t)))
           = w * spec_clamp (progress (bar_props st)) 0 1"
    using assms(3) by (simp add: barStyle_def determinateStyle_def Let_def)
  moreover have "style_width
           (barStyle curve
              (bar_run curve (bar_mount curve (bar_defaults\<lparr>progress := 1 / 2, height := 4\<rparr>))
                 [Layout 200, Elapse t])) = 100"
  proof -
    let ?p = "bar_defaults\<lparr>progress := 1 / 2, height := 4\<rparr>"
    let ?st = "bar_run curve (bar_mount curve ?p) [Layout 200, Elapse t]"
    have "read_value curve (progressValue ?st) = clampedProgress (progress ?p)"
      using progress_value_after_mount [of curve t ?p] by (simp add: bar_mount_def)
    then have pv: "read_value curve (progressValue ?st) = 1 / 2"
      by (simp add: clampedProgress_def Math_max_def Math_min_def)
    have cw: "read_value curve (containerWidth ?st) = 200"
      by (simp add: bar_mount_def bar_defaults_def handleLayout_def truthy_number_def
          read_value_def set_value_def advance_def)
    have "\<not> indeterminate (bar_props ?st)"
      by (simp add: bar_mount_def bar_defaults_def)
    then show ?thesis
      using pv cw by (simp add: barStyle_def determinateStyle_def Let_def)
  qed
  ultimately show ?thesis by simp
qed

theorem determinate_bar_width_witness:
  "\<not> indeterminate (bar_defaults\<lparr>progress := 2, width := Some 200\<rparr>)
   \<and> at_rest (bar_defaults\<lparr>progress := 2, width := Some 200\<rparr>) 300
   \<and> read_value linear_curve
        (containerWidth (bar_run linear_curve (bar_mount linear_curve bar_defaults)
           [Rerender (bar_defaults\<lparr>progress := 2, width := Some 200\<rparr>)])) = 200
   \<and> style_width
        (barStyle linear_curve
           (bar_step linear_curve
              (bar_run linear_curve (bar_mount linear_curve bar_defaults)
                 [Rerender (bar_defaults\<lparr>progress := 2, width := Some 200\<rparr>)])
              (Elapse 300)))
       = 200"
proof -
  let ?p = "bar_defaults\<lparr>progress := 2, width := Some 200\<rparr>"
  let ?es = "[Rerender ?p]"
  let ?st = "bar_run linear_curve (bar_mount linear_curve bar_defaults) ?es"
  have ok: "\<forall>e\<in>set ?es. bar_time_ok e"
    by simp
  have props: "bar_props ?st = ?p"
    by (simp add: bar_rerender_def Let_def)
  have det: "\<not> indeterminate (bar_props ?st)"
    by (simp only: props) (simp add: bar_defaults_def)
  have rest: "at_rest (bar_props ?st) 300"
    by (simp only: props) (simp add: at_rest_def bar_defaults_def)
  have cw: "read_value linear_curve (containerWidth ?st) = 200"
    by (simp add: bar_rerender_def Let_def bar_mount_def bar_defaults_def width_effect_def
        truthy_number_def)
  show ?thesis
    using determinate_bar_width [OF ok refl det rest cw] det rest cw
    by (simp only: props) (simp add: spec_clamp_def)
qed

text \<open>
  Claim C4. For every size and thickness, the arc the indeterminate
  AnimatedProgressCircle draws is exactly 25% of the circumference long and the gap is
  exactly 75% of it; neither depends on the \<open>progress\<close> prop or on the progress value.
\<close>

theorem indeterminate_circle_arc:
  assumes "indeterminate (circle_props st)"
  shows "animatedProps curve st
           = \<lparr>strokeDasharray = Some [circumference (circle_props st) * (25 / 100),
                                     circumference (circle_props st) * (75 / 100)],
              strokeDashoffset = 0\<rparr>
       \<and> arc_dasharray (render_arc curve st)
           = [circumference (circle_props st) * (25 / 100),
              circumference (circle_props st) * (75 / 100)]
       \<and> animatedProps curve (st\<lparr>circle_props := (circle_props st)\<lparr>progress := q\<rparr>,
                                  circleProgressValue := pv\<rparr>)
           = animatedProps curve st"
  using assms
  by (simp add: animatedProps_def indeterminateProps_def render_arc_def Let_def
      circumference_def radius_def)

theorem indeterminate_circle_arc_witness:
  "indeterminate (circle_props (circle_mount linear_curve ((circle_defaults 100)\<lparr>indeterminate := True, thickness := 8\<rparr>)))
   \<and> arc_dasharray
        (render_arc linear_curve
           (circle_mount linear_curve ((circle_defaults 100)\<lparr>indeterminate := True, thickness := 8\<rparr>)))
       = [2 * pi * 46 * (1 / 4), 2 * pi * 46 * (3 / 4)]"
proof -
  let ?st = "circle_mount linear_curve ((circle_defaults 100)\<lparr>indeterminate := True, thickness := 8\<rparr>)"
  have ind: "indeterminate (circle_props ?st)"
    by (simp add: circle_mount_def circle_defaults_def)
  have props: "circumference (circle_props ?st) = 2 * pi * 46"
    by (simp add: circle_mount_def circle_defaults_def circumference_def radius_def Math_PI_def)
  show ?thesis
    using indeterminate_circle_arc [OF ind, where curve = linear_curve and q = 0
        and pv = "useSharedValue 0"] ind
    by (simp only: props) simp
qed

text \<open>
  Claim C5, for a container width that is not negative. For every container width
  \<open>w \<ge> 0\<close> and every phase of the indeterminate cycle in \<open>[0, 1]\<close>, the filled
  segment of the indeterminate AnimatedProgressBar is exactly \<open>0.3 \<times> w\<close> wide and its
  horizontal offset lies in \<open>[0, w - 0.3 \<times> w]\<close>; the offset is \<open>0\<close> at phase
  \<open>0\<close> and \<open>w - 0.3 \<times> w\<close> at phase \<open>1\<close>.
\<close>

theorem indeterminate_bar_segment:
  assumes "indeterminate (bar_props st)"
    and "read_value curve (containerWidth st) = w" and "0 \<le> w"
    and "read_value curve (indeterminateValue st) = ph" and "0 \<le> ph" and "ph \<le> 1"
  shows "style_width (barStyle curve st) = 0.3 * w
       \<and> translateX (barStyle curve st) = Some (ph * (w - 0.3 * w))
       \<and> segment_offset_in_range curve st
       \<and> (ph = 0 \<longrightarrow> translateX (barStyle curve st) = Some 0)
       \<and> (ph = 1 \<longrightarrow> translateX (barStyle curve st) = Some (w - 0.3 * w))"
proof -
  have style: "barStyle curve st = \<lparr>style_width = 0.3 * w, translateX = Some (ph * (w - 0.3 * w))\<rparr>"
    using assms(1,2,4) by (simp add: barStyle_def indeterminateStyle_eq)
  have span: "0 \<le> w - 0.3 * w"
    using assms(3) by simp
  then have "0 \<le> ph * (w - 0.3 * w)"
    using assms(5) by (rule mult_nonneg_nonneg [rotated])
  moreover have "ph * (w - 0.3 * w) \<le> 1 * (w - 0.3 * w)"
    using assms(6) span by (rule mult_right_mono)
  ultimately have "segment_offset_in_range curve st"
    using assms(2) by (simp add: segment_offset_in_range_def style)
  then show ?thesis
    by (simp add: style)
qed

theorem indeterminate_bar_segment_witness:
  "indeterminate (bar_props (bar_run linear_curve
       (bar_mount linear_curve (bar_defaults\<lparr>width := Some 200, indeterminate := True\<rparr>)) [Elapse 1000]))
   \<and> style_width (barStyle linear_curve (bar_run linear_curve
       (bar_mount linear_curve (bar_defaults\<lparr>width := Some 200, indeterminate := True\<rparr>)) [Elapse 1000])) = 60
   \<and> translateX (barStyle linear_curve (bar_run linear_curve
       (bar_mount linear_curve (bar_defaults\<lparr>width := Some 200, indeterminate := True\<rparr>)) [Elapse 1000])) = Some 140
   \<and> segment_offset_in_range linear_curve (bar_run linear_curve
       (bar_mount linear_curve (bar_defaults\<lparr>width := Some 200, indeterminate := True\<rparr>)) [Elapse 1000])"
proof -
  let ?st = "bar_run linear_curve
       (bar_mount linear_curve (bar_defaults\<lparr>width := Some 200, indeterminate := True\<rparr>)) [Elapse 1000]"
  have ind: "indeterminate (bar_props ?st)"
    by (simp add: bar_mount_def bar_defaults_def)
  have cw: "read_value linear_curve (containerWidth ?st) = 200"
    by (simp add: bar_mount_def bar_defaults_def width_effect_def truthy_number_def
        read_value_def set_value_def advance_def)
  have ph: "read_value linear_curve (indeterminateValue ?st) = 1"
    by (simp add: bar_mount_def bar_defaults_def bar_indeterminate_effect_def set_animation_def
        withRepeat_def withTiming_def read_value_def advance_def useSharedValue_def
        repeat_at_def timing_at_def Let_def)
  show ?thesis
    using indeterminate_bar_segment [OF ind cw _ ph] ind
    by simp
qed

text \<open>
  Stated for every container width, the claim fails: a bar with \<open>width = -10\<close> holds the
  container width \<open>-10\<close>, and one cycle duration after mounting its phase is \<open>1\<close>
  and its offset \<open>-7\<close>, which is not in \<open>[0, w - 0.3 \<times> w]\<close>.
\<close>

theorem indeterminate_bar_segment_counterexample:
  "indeterminate (bar_props (bar_run linear_curve
       (bar_mount linear_curve (bar_defaults\<lparr>width := Some (- 10), indeterminate := True\<rparr>)) [Elapse 1000]))
   \<and> read_value linear_curve (containerWidth (bar_run linear_curve
       (bar_mount linear_curve (bar_defaults\<lparr>width := Some (- 10), indeterminate := True\<rparr>)) [Elapse 1000])) = - 10
   \<and> read_value linear_curve (indeterminateValue (bar_run linear_curve
       (bar_mount linear_curve (bar_defaults\<lparr>width := Some (- 10), indeterminate := True\<rparr>)) [Elapse 1000])) = 1
   \<and> translateX (barStyle linear_curve (bar_run linear_curve
       (bar_mount linear_curve (bar_defaults\<lparr>width := Some (- 10), indeterminate := True\<rparr>)) [Elapse 1000])) = Some (- 7)
   \<and> \<not> segment_offset_in_range linear_curve (bar_run linear_curve
       (bar_mount linear_curve (bar_defaults\<lparr>width := Some (- 10), indeterminate := True\<rparr>)) [Elapse 1000])"
proof -
  let ?st = "bar_run linear_curve
       (bar_mount linear_curve (bar_defaults\<lparr>width := Some (- 10), indeterminate := True\<rparr>)) [Elapse 1000]"
  have ind: "indeterminate (bar_props ?st)"
    by (simp add: bar_mount_def bar_defaults_def)
  have cw: "read_value linear_curve (containerWidth ?st) = - 10"
    by (simp add: bar_mount_def bar_defaults_def width_effect_def truthy_number_def
        read_value_def set_value_def advance_def)
  have ph: "read_value linear_curve (indeterminateValue ?st) = 1"
    by (simp add: bar_mount_def bar_defaults_def bar_indeterminate_effect_def set_animation_def
        withRepeat_def withTiming_def read_value_def advance_def useSharedValue_def
        repeat_at_def timing_at_def Let_def)
  have tx: "translateX (barStyle linear_curve ?st) = Some (- 7)"
    using ind by (simp only: barStyle_def indeterminateStyle_eq cw ph if_True) simp
  have "\<not> segment_offset_in_range linear_curve ?st"
    by (simp only: segment_offset_in_range_def tx cw Let_def) simp
  with ind cw ph tx show ?thesis
    by (simp only: simp_thms)
qed


text \<open>
  Claim C7. Whenever the \<open>indeterminate\<close> prop of a component switches, the
  transition of the mode that is now inactive is cancelled and its state reset. On the
  switch to determinate the loop value (cycle phase, spin rotation) has no transition and
  reads \<open>0\<close> from then on, and once the component is at rest, which it is after
  \<open>animationDuration\<close> at the latest, the geometry is the determinate one for the
  current progress. On the switch to indeterminate the progress value has no transition
  and holds the clamped progress. Unmounting cancels the loop as well.
\<close>

theorem mode_switch_cancels_and_resets:
  assumes "indeterminate (bar_props bst) \<noteq> indeterminate bp"
    and "indeterminate (circle_props cst) \<noteq> indeterminate cp"
    and "bst' = bar_rerender curve bp bst"
    and "cst' = circle_rerender curve cp cst"
  shows "(\<not> indeterminate bp \<longrightarrow>
            running (indeterminateValue bst') = None
          \<and> read_value curve (advance t (indeterminateValue bst')) = 0
          \<and> (at_rest bp t \<longrightarrow>
                barStyle curve (bar_step curve bst' (Elapse t))
                  = \<lparr>style_width = read_value curve (advance t (containerWidth bst'))
                                      * spec_clamp (progress bp) 0 1,
                     translateX = None\<rparr>))
       \<and> (indeterminate bp \<longrightarrow>
            running (progressValue bst') = None
          \<and> read_value curve (advance t (progressValue bst')) = spec_clamp (progress bp) 0 1)
       \<and> running (indeterminateValue (bar_unmount curve bst)) = None
       \<and> (\<not> indeterminate cp \<longrightarrow>
            running (spinRotation cst') = None
          \<and> read_value curve (advance t (spinRotation cst')) = 0
          \<and> (at_rest cp t \<longrightarrow>
                render_arc curve (circle_step curve cst' (CElapse t))
                  = \<lparr>arc_r = radius cp, arc_strokeWidth = thickness cp,
                     arc_dasharray = [circumference cp, circumference cp],
                     arc_dashoffset =
                       (if isCounterClockwise cp
                        then - (circumference cp * (1 - spec_clamp (progress cp) 0 1))
                        else circumference cp * (1 - spec_clamp (progress cp) 0 1)),
                     spinner_rotate = None\<rparr>))
       \<and> (indeterminate cp \<longrightarrow>
            running (circleProgressValue cst') = None
          \<and> read_value curve (advance t (circleProgressValue cst')) = spec_clamp (progress cp) 0 1)
       \<and> running (spinRotation (circle_unmount curve cst)) = None"
proof -
  have bdeps: "progress_deps bp \<noteq> progress_deps (bar_props bst)"
    "bar_indeterminate_deps bp \<noteq> bar_indeterminate_deps (bar_props bst)"
    using assms(1) by (auto simp: progress_deps_def bar_indeterminate_deps_def)
  have cdeps: "progress_deps cp \<noteq> progress_deps (circle_props cst)"
    "spin_deps cp \<noteq> spin_deps (circle_props cst)"
    using assms(2) by (auto simp: progress_deps_def spin_deps_def)
  have bpv: "progressValue bst' = progress_effect curve bp (progressValue bst)"
    and biv: "indeterminateValue bst'
              = bar_indeterminate_effect curve bp
                  (bar_indeterminate_cleanup curve (indeterminateValue bst))"
    and bpr: "bar_props bst' = bp"
    using bdeps by (simp_all add: assms(3) bar_rerender_def Let_def)
  have cpv: "circleProgressValue cst' = progress_effect curve cp (circleProgressValue cst)"
    and csr: "spinRotation cst' = spin_effect curve cp (spin_cleanup curve (spinRotation cst))"
    and cpr: "circle_props cst' = cp"
    using cdeps by (simp_all add: assms(4) circle_rerender_def Let_def)
  have b_det: "running (indeterminateValue bst') = None
          \<and> read_value curve (advance t (indeterminateValue bst')) = 0
          \<and> (at_rest bp t \<longrightarrow>
                barStyle curve (bar_step curve bst' (Elapse t))
                  = \<lparr>style_width = read_value curve (advance t (containerWidth bst'))
                                      * spec_clamp (progress bp) 0 1,
                     translateX = None\<rparr>)" if det: "\<not> indeterminate bp"
  proof -
    have iv: "indeterminateValue bst' = \<lparr>held = 0, running = None, runtime = 0\<rparr>"
      using det by (simp add: biv bar_indeterminate_effect_def loop_effect_reset)
    have "barStyle curve (bar_step curve bst' (Elapse t))
            = \<lparr>style_width = read_value curve (advance t (containerWidth bst'))
                                * spec_clamp (progress bp) 0 1,
               translateX = None\<rparr>" if "at_rest bp t"
      using det progress_effect_settled [OF that, of curve "progressValue bst"]
      by (simp add: barStyle_def determinateStyle_def Let_def bpr bpv
          clampedProgress_eq_spec_clamp)
    then show ?thesis
      by (simp add: iv read_value_def advance_def)
  qed
  have b_ind: "running (progressValue bst') = None
          \<and> read_value curve (advance t (progressValue bst')) = spec_clamp (progress bp) 0 1"
    if "indeterminate bp"
    using that
    by (simp add: bpv progress_effect_indeterminate read_value_def advance_def
        clampedProgress_eq_spec_clamp)
  have c_det: "running (spinRotation cst') = None
          \<and> read_value curve (advance t (spinRotation cst')) = 0
          \<and> (at_rest cp t \<longrightarrow>
                render_arc curve (circle_step curve cst' (CElapse t))
                  = \<lparr>arc_r = radius cp, arc_strokeWidth = thickness cp,
                     arc_dasharray = [circumference cp, circumference cp],
                     arc_dashoffset =
                       (if isCounterClockwise cp
                        then - (circumference cp * (1 - spec_clamp (progress cp) 0 1))
                        else circumference cp * (1 - spec_clamp (progress cp) 0 1)),
                     spinner_rotate = None\<rparr>)" if det: "\<not> indeterminate cp"
  proof -
    have sr: "spinRotation cst' = \<lparr>held = 0, running = None, runtime = 0\<rparr>"
      using det by (simp add: csr spin_effect_def loop_effect_reset)
    have "render_arc curve (circle_step curve cst' (CElapse t))
                  = \<lparr>arc_r = radius cp, arc_strokeWidth = thickness cp,
                     arc_dasharray = [circumference cp, circumference cp],
                     arc_dashoffset =
                       (if isCounterClockwise cp
                        then - (circumference cp * (1 - spec_clamp (progress cp) 0 1))
                        else circumference cp * (1 - spec_clamp (progress cp) 0 1)),
                     spinner_rotate = None\<rparr>" if "at_rest cp t"
      using det progress_effect_settled [OF that, of curve "circleProgressValue cst"]
      by (simp add: render_arc_def animatedProps_def determinateProps_def Let_def cpr cpv
          clampedProgress_eq_spec_clamp)
    then show ?thesis
      by (simp add: sr read_value_def advance_def)
  qed
  have c_ind: "running (circleProgressValue cst') = None
          \<and> read_value curve (advance t (circleProgressValue cst')) = spec_clamp (progress cp) 0 1"
    if "indeterminate cp"
    using that
    by (simp add: cpv progress_effect_indeterminate read_value_def advance_def
        clampedProgress_eq_spec_clamp)
  have b_un: "running (indeterminateValue (bar_unmount curve bst)) = None"
    by (simp add: bar_unmount_def bar_indeterminate_cleanup_def)
  have c_un: "running (spinRotation (circle_unmount curve cst)) = None"
    by (simp add: circle_unmount_def spin_cleanup_def)
  from b_det b_ind c_det c_ind b_un c_un show ?thesis
    by blast
qed

theorem mode_switch_cancels_and_resets_witness:
  "indeterminate (bar_props (bar_mount linear_curve (bar_defaults\<lparr>progress := 1 / 2, width := Some 200, indeterminate := True\<rparr>))) \<noteq> indeterminate (bar_defaults\<lparr>progress := 1 / 2, width := Some 200\<rparr>)
   \<and> indeterminate (circle_props (circle_mount linear_curve (circle_defaults 100))) \<noteq> indeterminate ((circle_defaults 100)\<lparr>progress := 3, indeterminate := True\<rparr>)
   \<and> running (indeterminateValue (bar_rerender linear_curve (bar_defaults\<lparr>progress := 1 / 2, width := Some 200\<rparr>) (bar_mount linear_curve (bar_defaults\<lparr>progress := 1 / 2, width := Some 200, indeterminate := True\<rparr>)))) = None
   \<and> read_value linear_curve (advance 300 (indeterminateValue (bar_rerender linear_curve (bar_defaults\<lparr>progress := 1 / 2, width := Some 200\<rparr>) (bar_mount linear_curve (bar_defaults\<lparr>progress := 1 / 2, width := Some 200, indeterminate := True\<rparr>))))) = 0
   \<and> at_rest (bar_defaults\<lparr>progress := 1 / 2, width := Some 200\<rparr>) 300
   \<and> barStyle linear_curve (bar_step linear_curve (bar_rerender linear_curve (bar_defaults\<lparr>progress := 1 / 2, width := Some 200\<rparr>) (bar_mount linear_curve (bar_defaults\<lparr>progress := 1 / 2, width := Some 200, indeterminate := True\<rparr>))) (Elapse 300))
       = \<lparr>style_width = 100, translateX = None\<rparr>
   \<and> running (circleProgressValue (circle_rerender linear_curve ((circle_defaults 100)\<lparr>progress := 3, indeterminate := True\<rparr>) (circle_mount linear_curve (circle_defaults 100)))) = None
   \<and> read_value linear_curve (advance 300 (circleProgressValue (circle_rerender linear_curve ((circle_defaults 100)\<lparr>progress := 3, indeterminate := True\<rparr>) (circle_mount linear_curve (circle_defaults 100))))) = 1
   \<and> running (indeterminateValue (bar_unmount linear_curve (bar_mount linear_curve (bar_defaults\<lparr>progress := 1 / 2, width := Some 200, indeterminate := True\<rparr>)))) = None
   \<and> running (spinRotation (circle_unmount linear_curve (circle_mount linear_curve (circle_defaults 100)))) = None"
proof -
  have h1: "indeterminate (bar_props (bar_mount linear_curve (bar_defaults\<lparr>progress := 1 / 2, width := Some 200, indeterminate := True\<rparr>))) \<noteq> indeterminate (bar_defaults\<lparr>progress := 1 / 2, width := Some 200\<rparr>)"
    by (simp add: bar_mount_def bar_defaults_def)
  have h2: "indeterminate (circle_props (circle_mount linear_curve (circle_defaults 100))) \<noteq> indeterminate ((circle_defaults 100)\<lparr>progress := 3, indeterminate := True\<rparr>)"
    by (simp add: circle_mount_def circle_defaults_def)
  have det: "\<not> indeterminate (bar_defaults\<lparr>progress := 1 / 2, width := Some 200\<rparr>)"
    by (simp add: bar_defaults_def)
  have ind: "indeterminate ((circle_defaults 100)\<lparr>progress := 3, indeterminate := True\<rparr>)"
    by simp
  have rest: "at_rest (bar_defaults\<lparr>progress := 1 / 2, width := Some 200\<rparr>) 300"
    by (simp add: at_rest_def bar_defaults_def)
  have cw: "read_value linear_curve (advance 300 (containerWidth (bar_rerender linear_curve (bar_defaults\<lparr>progress := 1 / 2, width := Some 200\<rparr>) (bar_mount linear_curve (bar_defaults\<lparr>progress := 1 / 2, width := Some 200, indeterminate := True\<rparr>))))) = 200"
    by (simp add: bar_rerender_def Let_def bar_mount_def width_effect_def truthy_number_def
        read_value_def advance_def set_value_def)
  have cb: "spec_clamp (progress (bar_defaults\<lparr>progress := 1 / 2, width := Some 200\<rparr>)) 0 1 = 1 / 2"
    by (simp add: spec_clamp_def)
  have cc: "spec_clamp (progress ((circle_defaults 100)\<lparr>progress := 3, indeterminate := True\<rparr>)) 0 1 = 1"
    by (simp add: spec_clamp_def)
  show ?thesis
    using mode_switch_cancels_and_resets [OF h1 h2 refl refl, where curve = linear_curve and t = 300]
      h1 h2 det ind rest
    by (simp only: cw cb cc) simp
qed

text \<open>
  Claim C8, for an explicit width other than zero. In every state a mounted
  AnimatedProgressBar reaches: if the \<open>width\<close> prop is a number other than \<open>0\<close>, the
  container width is that number, a layout measurement does not change it, and the
  container is styled with it; if the \<open>width\<close> prop is \<open>null\<close> or \<open>0\<close>, every
  layout measurement becomes the container width, and the container is styled
  \<open>100%\<close> wide.
\<close>

theorem container_width_resolution:
  assumes "st = bar_run curve (bar_mount curve p) es"
  shows "(truthy_number (width (bar_props st)) = Some w \<longrightarrow>
            read_value curve (containerWidth st) = w
          \<and> read_value curve (containerWidth (bar_step curve st (Layout lw))) = w
          \<and> cs_width (containerStyle (bar_props st)) = Px w)
       \<and> (truthy_number (width (bar_props st)) = None \<longrightarrow>
            read_value curve (containerWidth (bar_step curve st (Layout lw))) = lw
          \<and> cs_width (containerStyle (bar_props st)) = Percent 100)"
proof -
  have inv: "width_applied (bar_props st) (containerWidth st)"
    unfolding assms by (rule bar_run_width_applied) (rule bar_mount_width_applied)
  have "read_value curve (containerWidth st) = w
          \<and> read_value curve (containerWidth (bar_step curve st (Layout lw))) = w
          \<and> cs_width (containerStyle (bar_props st)) = Px w"
    if "truthy_number (width (bar_props st)) = Some w"
    using inv that by (simp add: width_applied_def read_value_def handleLayout_def containerStyle_def)
  moreover have "read_value curve (containerWidth (bar_step curve st (Layout lw))) = lw
          \<and> cs_width (containerStyle (bar_props st)) = Percent 100"
    if "truthy_number (width (bar_props st)) = None"
    using that by (simp add: handleLayout_def containerStyle_def)
  ultimately show ?thesis
    by blast
qed

theorem container_width_resolution_witness:
  "read_value linear_curve
     (containerWidth (bar_run linear_curve (bar_mount linear_curve (bar_defaults\<lparr>width := Some 120\<rparr>))
        [Layout 300])) = 120
   \<and> read_value linear_curve
     (containerWidth (bar_step linear_curve
        (bar_run linear_curve (bar_mount linear_curve (bar_defaults\<lparr>width := Some 120\<rparr>)) [Layout 300])
        (Layout 80))) = 120
   \<and> read_value linear_curve
     (containerWidth (bar_step linear_curve
        (bar_run linear_curve (bar_mount linear_curve bar_defaults) [Layout 300])
        (Layout 80))) = 80"
proof -
  have e: "truthy_number (width (bar_props
             (bar_run linear_curve (bar_mount linear_curve (bar_defaults\<lparr>width := Some 120\<rparr>))
                [Layout 300]))) = Some 120"
    by (simp add: bar_mount_def truthy_number_def)
  have m: "truthy_number (width (bar_props
             (bar_run linear_curve (bar_mount linear_curve bar_defaults) [Layout 300]))) = None"
    by (simp add: bar_mount_def bar_defaults_def truthy_number_def)
  show ?thesis
    using container_width_resolution [OF refl, where curve = linear_curve
        and p = "bar_defaults\<lparr>width := Some 120\<rparr>" and es = "[Layout 300]" and w = 120 and lw = 80]
      container_width_resolution [OF refl, where curve = linear_curve
        and p = bar_defaults and es = "[Layout 300]" and w = 0 and lw = 80]
    by (simp only: e m)
qed

text \<open>
  Stated for every explicit width, the claim fails: with \<open>width = 0\<close> the layout measurement
  of 200 becomes the container width, a bar at progress \<open>0.5\<close> is filled 100 wide, and
  the container is styled \<open>100%\<close> wide.
\<close>

theorem explicit_zero_width_counterexample:
  "width (bar_props (bar_run linear_curve
      (bar_mount linear_curve (bar_defaults\<lparr>progress := 1 / 2, width := Some 0\<rparr>)) [Layout 200])) = Some 0
   \<and> read_value linear_curve (containerWidth (bar_run linear_curve
      (bar_mount linear_curve (bar_defaults\<lparr>progress := 1 / 2, width := Some 0\<rparr>)) [Layout 200])) = 200
   \<and> read_value linear_curve (containerWidth (bar_run linear_curve
      (bar_mount linear_curve (bar_defaults\<lparr>progress := 1 / 2, width := Some 0\<rparr>)) [Layout 200])) \<noteq> 0
   \<and> style_width (barStyle linear_curve (bar_run linear_curve
      (bar_mount linear_curve (bar_defaults\<lparr>progress := 1 / 2, width := Some 0\<rparr>)) [Layout 200])) = 100
   \<and> cs_width (containerStyle (bar_defaults\<lparr>progress := 1 / 2, width := Some 0\<rparr>)) = Percent 100"
proof -
  let ?p = "bar_defaults\<lparr>progress := 1 / 2, width := Some 0\<rparr>"
  let ?st = "bar_run linear_curve (bar_mount linear_curve ?p) [Layout 200]"
  have w: "width (bar_props ?st) = Some 0"
    by (simp add: bar_mount_def)
  have cw: "read_value linear_curve (containerWidth ?st) = 200"
    by (simp add: bar_mount_def handleLayout_def truthy_number_def)
  have "read_value linear_curve (progressValue ?st) = clampedProgress (progress ?p)"
    using progress_value_after_mount [of linear_curve 0 ?p]
    by (simp add: bar_mount_def advance_def)
  then have pv: "read_value linear_curve (progressValue ?st) = 1 / 2"
    by (simp add: clampedProgress_def Math_max_def Math_min_def)
  have "\<not> indeterminate (bar_props ?st)"
    by (simp add: bar_mount_def bar_defaults_def)
  then have sw: "style_width (barStyle linear_curve ?st) = 100"
    using pv cw by (simp add: barStyle_def determinateStyle_def Let_def)
  have cs: "cs_width (containerStyle ?p) = Percent 100"
    by (simp add: containerStyle_def truthy_number_def)
  from w cw sw cs show ?thesis
    by simp
qed

text \<open>
  Claim C9. For AnimatedProgressCircle with \<open>progress = 0.75\<close>, \<open>size = 100\<close>,
  \<open>thickness = 8\<close> and the default clockwise direction, the radius is 46, the
  circumference is \<open>2\<pi> \<times> 46\<close>, which is 289.03 to two decimal places, and the dash
  offset after mounting is a quarter of the circumference at every time, which is 72.26
  to two decimal places.
\<close>

theorem circle_example_geometry:
  "radius ((circle_defaults 100)\<lparr>progress := 3 / 4, thickness := 8\<rparr>) = 46
   \<and> circumference ((circle_defaults 100)\<lparr>progress := 3 / 4, thickness := 8\<rparr>) = 2 * pi * 46
   \<and> \<bar>circumference ((circle_defaults 100)\<lparr>progress := 3 / 4, thickness := 8\<rparr>) - 289.03\<bar> < 0.005
   \<and> arc_dashoffset
       (render_arc curve
          (circle_step curve
             (circle_mount curve ((circle_defaults 100)\<lparr>progress := 3 / 4, thickness := 8\<rparr>))
             (CElapse t)))
       = circumference ((circle_defaults 100)\<lparr>progress := 3 / 4, thickness := 8\<rparr>) * (1 / 4)
   \<and> \<bar>arc_dashoffset
        (render_arc curve
           (circle_step curve
              (circle_mount curve ((circle_defaults 100)\<lparr>progress := 3 / 4, thickness := 8\<rparr>))
              (CElapse t)))
      - 72.26\<bar> < 0.005"
proof -
  let ?p = "(circle_defaults 100)\<lparr>progress := 3 / 4, thickness := 8\<rparr>"
  let ?st = "circle_step curve (circle_mount curve ?p) (CElapse t)"
  have r: "radius ?p = 46"
    by (simp add: radius_def circle_defaults_def)
  have c: "circumference ?p = 2 * pi * 46"
    by (simp add: circumference_def radius_def circle_defaults_def Math_PI_def)
  have mode: "\<not> indeterminate ?p" "\<not> isCounterClockwise ?p"
    by (simp_all add: circle_defaults_def isCounterClockwise_def)
  have props: "circle_props (circle_mount curve ?p) = ?p"
    by (simp add: circle_mount_def)
  have "read_value curve (advance t (circleProgressValue (circle_mount curve ?p)))
        = clampedProgress (progress ?p)"
    using progress_value_after_mount [of curve t ?p] by (simp add: circle_mount_def)
  also have "\<dots> = 3 / 4"
    by (simp add: clampedProgress_def Math_max_def Math_min_def)
  finally have pv: "read_value curve (advance t (circleProgressValue (circle_mount curve ?p)))
        = 3 / 4" .
  have off: "arc_dashoffset (render_arc curve ?st) = circumference ?p * (1 / 4)"
    using mode
    by (simp add: render_arc_def animatedProps_def determinateProps_def Let_def props pv)
  have "\<bar>2 * pi * 46 - 289.03\<bar> < 0.005"
    using pi_lower_bound pi_upper_bound by (simp add: abs_less_iff)
  then have c_near: "\<bar>circumference ?p - 289.03\<bar> < 0.005"
    by (simp only: c)
  have "\<bar>2 * pi * 46 * (1 / 4) - 72.26\<bar> < 0.005"
    using pi_lower_bound pi_upper_bound by (simp add: abs_less_iff)
  then have off_near: "\<bar>arc_dashoffset (render_arc curve ?st) - 72.26\<bar> < 0.005"
    by (simp only: off c)
  from r c c_near off off_near show ?thesis
    by (simp only: simp_thms)
qed

text \<open>
  Claim C10. For every \<open>borderRadius\<close> and \<open>borderWidth\<close> of AnimatedProgressBar the
  border radius of the inner filled segment is \<open>max(0, borderRadius - borderWidth)\<close>,
  and so it is never negative, also when \<open>borderWidth\<close> exceeds \<open>borderRadius\<close>.
\<close>

theorem inner_border_radius:
  "pbs_borderRadius (progressBarStyle p) = max 0 (borderRadius p - borderWidth p)
   \<and> 0 \<le> pbs_borderRadius (progressBarStyle p)
   \<and> pbs_borderRadius (progressBarStyle p)
       = (if borderRadius p < borderWidth p then 0 else borderRadius p - borderWidth p)"
proof -
  have "pbs_borderRadius (progressBarStyle p) = max 0 (borderRadius p - borderWidth p)"
    by (simp add: progressBarStyle_def Math_max_def)
  then show ?thesis
    by (simp add: max_def)
qed

end
